theory Spec2Isabelle
  imports Complex_Main "HOL-Library.Word"
begin

section \<open>Demo videos for opaque compositing: the checkerboard generator and the writer\<close>

text \<open>
  The script \<^verbatim>\<open>opaque_overlay_demos.py\<close> builds a few clips with MoviePy and writes each
  one to an MP4 file. Its own logic is the checkerboard pixel grid of
  \<^verbatim>\<open>checkerboard_clip\<close> (NumPy broadcasting) and the glue of \<^verbatim>\<open>write_video\<close>, the
  five demo functions and the entry point.

  NumPy, pathlib and MoviePy are libraries, not code of the script; they are modelled by
  the behaviour the script relies on:
  \<^item> an \<^verbatim>\<open>ndarray\<close> is its shape and its items in row-major order;
  \<^item> integer conversion follows NumPy 2: a Python integer that does not fit the target
    dtype raises \<^verbatim>\<open>OverflowError\<close>;
  \<^item> index arrays hold \<^verbatim>\<open>int64\<close> values below the array length, so their arithmetic
    never wraps and is done on \<open>int\<close>; memory exhaustion is not modelled;
  \<^item> Python's \<^verbatim>\<open>//\<close> and \<^verbatim>\<open>%\<close> round towards minus infinity, as \<open>div\<close> and \<open>mod\<close> on
    \<open>int\<close> do.
\<close>

subsection \<open>Errors\<close>

datatype error =
    OverflowError
  | IndexError
  | ValueError
  | OSError
  | EncoderError

subsection \<open>NumPy arrays\<close>

type_synonym uint8 = "8 word"

type_synonym rgb = "int \<times> int \<times> int"

record 'a ndarray =
  shape :: "nat list"
  items :: "'a list"

definition int64_min :: int where
  "int64_min = - (2 ^ 63)"

definition int64_max :: int where
  "int64_max = 2 ^ 63 - 1"

text \<open>\<^verbatim>\<open>np.arange(n)\<close>: the integers \<open>0, \<dots>, n - 1\<close>; empty when \<open>n \<le> 0\<close>.\<close>

definition np_arange :: "int \<Rightarrow> int ndarray" where
  "np_arange n = \<lparr>shape = [nat n], items = [0..n - 1]\<rparr>"

text \<open>
  \<^verbatim>\<open>a // k\<close> and \<^verbatim>\<open>a % k\<close> for an \<^verbatim>\<open>int64\<close> array and a Python integer: the integer is
  converted to \<^verbatim>\<open>int64\<close> first.
\<close>

definition floor_divide :: "int ndarray \<Rightarrow> int \<Rightarrow> error + int ndarray" where
  "floor_divide a k =
     (if k < int64_min \<or> int64_max < k then Inl OverflowError
      else Inr (a\<lparr>items := map (\<lambda>v. v div k) (items a)\<rparr>))"

definition remainder :: "int ndarray \<Rightarrow> int \<Rightarrow> error + int ndarray" where
  "remainder a k =
     (if k < int64_min \<or> int64_max < k then Inl OverflowError
      else Inr (a\<lparr>items := map (\<lambda>v. v mod k) (items a)\<rparr>))"

text \<open>
  \<^verbatim>\<open>rows[:, None] + cols[None, :]\<close> for one-dimensional \<^verbatim>\<open>rows\<close> and \<^verbatim>\<open>cols\<close>: the
  shapes \<open>(h, 1)\<close> and \<open>(1, w)\<close> broadcast to \<open>(h, w)\<close>.
\<close>

definition add_outer :: "int ndarray \<Rightarrow> int ndarray \<Rightarrow> int ndarray" where
  "add_outer rows cols =
     \<lparr>shape = [length (items rows), length (items cols)],
      items = concat (map (\<lambda>r. map (\<lambda>c. r + c) (items cols)) (items rows))\<rparr>"

text \<open>\<^verbatim>\<open>np.array(colors, dtype=np.uint8)\<close> for a pair of RGB triples.\<close>

definition channels :: "rgb \<Rightarrow> int list" where
  "channels c = (case c of (r, g, b) \<Rightarrow> [r, g, b])"

definition np_array_uint8 :: "rgb \<times> rgb \<Rightarrow> error + uint8 ndarray" where
  "np_array_uint8 colors =
     (let vs = channels (fst colors) @ channels (snd colors)
      in if list_all (\<lambda>v. 0 \<le> v \<and> v \<le> 255) vs
         then Inr \<lparr>shape = [2, 3], items = map word_of_int vs\<rparr>
         else Inl OverflowError)"

text \<open>
  \<^verbatim>\<open>a[idx]\<close> for an integer index array: each index selects one block along the first
  axis; a negative index counts from the end, an index out of range raises.
\<close>

definition take_rows :: "'a ndarray \<Rightarrow> int ndarray \<Rightarrow> error + 'a ndarray" where
  "take_rows a idx =
     (case shape a of
        [] \<Rightarrow> Inl IndexError
      | n # rest \<Rightarrow>
          let k = prod_list rest in
          if list_all (\<lambda>i. - int n \<le> i \<and> i < int n) (items idx)
          then Inr \<lparr>shape = shape idx @ rest,
                    items = concat (map (\<lambda>i. take k (drop (nat (i mod int n) * k) (items a)))
                                        (items idx))\<rparr>
          else Inl IndexError)"


definition pixel_at :: "'a ndarray \<Rightarrow> nat \<Rightarrow> nat \<Rightarrow> 'a list option" where
  "pixel_at a y x =
     (case shape a of
        [h, w, c] \<Rightarrow>
          if y < h \<and> x < w then Some (take c (drop ((y * w + x) * c) (items a))) else None
      | _ \<Rightarrow> None)"

text \<open>All pixels of a 3-d array, row by row.\<close>

fun chunks :: "nat \<Rightarrow> nat \<Rightarrow> 'a list \<Rightarrow> 'a list list" where
  "chunks 0 c xs = []"
| "chunks (Suc n) c xs = take c xs # chunks n c (drop c xs)"

definition pixels :: "'a ndarray \<Rightarrow> 'a list list" where
  "pixels a = (case shape a of [h, w, c] \<Rightarrow> chunks (h * w) c (items a) | _ \<Rightarrow> [])"

subsection \<open>Clips\<close>

text \<open>
  A MoviePy clip is carried as the constructor calls that built it; the script never
  looks inside one.
\<close>

datatype position = Center | Right | Pixels int

datatype clip =
    ColorClip "int \<times> int" rgb real
  | ImageClip "uint8 ndarray"
  | with_duration clip real
  | with_fps clip int
  | with_opacity clip real
  | with_position clip "position \<times> position"
  | CompositeVideoClip "clip list"
  | CompositeVideoClip_bg "clip list" "rgb option"

definition FPS :: int where
  "FPS = 24"

subsection \<open>\<^verbatim>\<open>checkerboard_clip\<close>\<close>


definition default_colors :: "rgb \<times> rgb" where
  "default_colors = ((20, 20, 20), (220, 220, 220))"

text \<open>
  The function is split at its local variables: \<^verbatim>\<open>grid\<close> (lines 43 to 48), \<^verbatim>\<open>frame\<close>
  (lines 50 and 51) and the clip it returns (line 53). The parameter \<^verbatim>\<open>size\<close> is written
  \<open>sz\<close>, since \<open>size\<close> is a constant of HOL.
\<close>

definition checkerboard_grid :: "int \<times> int \<Rightarrow> int \<Rightarrow> error + int ndarray" where
  "checkerboard_grid sz tile =
     (case sz of (width, height) \<Rightarrow>
        let tile = max 1 tile in
        case floor_divide (np_arange width) tile of
          Inl e \<Rightarrow> Inl e
        | Inr cols \<Rightarrow>
            (case floor_divide (np_arange height) tile of
               Inl e \<Rightarrow> Inl e
             | Inr rows \<Rightarrow> remainder (add_outer rows cols) 2))"

definition checkerboard_frame :: "int \<times> int \<Rightarrow> int \<Rightarrow> rgb \<times> rgb \<Rightarrow> error + uint8 ndarray" where
  "checkerboard_frame sz tile colors =
     (case checkerboard_grid sz tile of
        Inl e \<Rightarrow> Inl e
      | Inr grid \<Rightarrow>
          (case np_array_uint8 colors of
             Inl e \<Rightarrow> Inl e
           | Inr palette \<Rightarrow> take_rows palette grid))"

definition checkerboard_clip :: "int \<times> int \<Rightarrow> real \<Rightarrow> int \<Rightarrow> rgb \<times> rgb \<Rightarrow> error + clip" where
  "checkerboard_clip sz duration tile colors =
     (case checkerboard_frame sz tile colors of
        Inl e \<Rightarrow> Inl e
      | Inr frame \<Rightarrow> Inr (with_fps (with_duration (ImageClip frame) duration) FPS))"

subsection \<open>Vocabulary of the properties\<close>

text \<open>The colour \<^verbatim>\<open>colors[i]\<close> for an index \<open>i\<close> of the grid, and its row of the palette.\<close>

definition color_of :: "rgb \<times> rgb \<Rightarrow> int \<Rightarrow> rgb" where
  "color_of colors i = (if i = 0 then fst colors else snd colors)"

definition palette_row :: "rgb \<times> rgb \<Rightarrow> int \<Rightarrow> uint8 list" where
  "palette_row colors i = map word_of_int (channels (color_of colors i))"

text \<open>Colours whose six channels all fit \<^verbatim>\<open>uint8\<close>.\<close>

definition valid_colors :: "rgb \<times> rgb \<Rightarrow> bool" where
  "valid_colors colors =
     list_all (\<lambda>v. 0 \<le> v \<and> v \<le> 255) (channels (fst colors) @ channels (snd colors))"

text \<open>
  The items of the grid and of the frame in closed form, for a tile length \<open>t\<close> that has
  been clamped already.
\<close>

definition grid_items :: "int \<Rightarrow> int \<Rightarrow> int \<Rightarrow> int list" where
  "grid_items w h t =
     concat (map (\<lambda>r. map (\<lambda>c. (r div t + c div t) mod 2) [0..w - 1]) [0..h - 1])"

definition frame_items :: "rgb \<times> rgb \<Rightarrow> int list \<Rightarrow> uint8 list" where
  "frame_items colors is = concat (map (palette_row colors) is)"

section \<open>Writing the videos\<close>

text \<open>
  The rest of the script acts on the world: it creates directories and calls MoviePy's
  encoder. The world is passed explicitly; a function of the script takes a world and
  returns the exception it raised, if any, and the world it left behind.

  Assumptions about the libraries, on a POSIX system:
  \<^item> a path is what \<^verbatim>\<open>pathlib.PurePosixPath\<close> keeps of it: its root and its names, where
    empty names and \<^verbatim>\<open>.\<close> are dropped and \<^verbatim>\<open>..\<close> is kept;
  \<^item> the file system is a map from resolved absolute paths to directories and files,
    whose root always is a directory;
  \<^item> \<^verbatim>\<open>mkdir(parents=True, exist_ok=True)\<close> and \<^verbatim>\<open>write_videofile\<close> are parameters of
    the environment: any functions to an optional exception and a new file system. What
    the operating system and the encoder do, and when they raise, is not fixed here.
\<close>

subsection \<open>Paths\<close>

record pure_path =
  anchor :: string
  names :: "string list"

text \<open>\<^verbatim>\<open>s.split(sep)\<close> for a separator of one character.\<close>

fun split_on :: "char \<Rightarrow> string \<Rightarrow> string list" where
  "split_on sep [] = [[]]"
| "split_on sep (c # cs) =
     (let ps = split_on sep cs
      in if c = sep then [] # ps else (c # hd ps) # tl ps)"

text \<open>\<^verbatim>\<open>posixpath.splitroot\<close>: exactly two leading slashes are a root of their own.\<close>

definition splitroot :: "string \<Rightarrow> string \<times> string" where
  "splitroot p =
     (if take 1 p \<noteq> ''/'' then ('''', p)
      else if take 1 (drop 1 p) \<noteq> ''/'' \<or> take 1 (drop 2 p) = ''/'' then (''/'', drop 1 p)
      else (''//'', drop 2 p))"

definition parse_path :: "string \<Rightarrow> pure_path" where
  "parse_path p =
     (case splitroot p of
        (r, rel) \<Rightarrow>
          \<lparr>anchor = r, names = filter (\<lambda>x. x \<noteq> '''' \<and> x \<noteq> ''.'') (split_on CHR ''/'' rel)\<rparr>)"

text \<open>\<^verbatim>\<open>base / s\<close> for an absolute path \<^verbatim>\<open>base\<close> and a string: an absolute \<^verbatim>\<open>s\<close> replaces \<^verbatim>\<open>base\<close>.\<close>

definition joinpath :: "pure_path \<Rightarrow> string \<Rightarrow> pure_path" where
  "joinpath base s =
     (let q = parse_path s
      in if anchor q \<noteq> '''' then q
         else \<lparr>anchor = anchor base, names = names base @ names q\<rparr>)"

definition parent :: "pure_path \<Rightarrow> pure_path" where
  "parent p = p\<lparr>names := butlast (names p)\<rparr>"

fun join_with :: "string \<Rightarrow> string list \<Rightarrow> string" where
  "join_with sep [] = []"
| "join_with sep [x] = x"
| "join_with sep (x # y # ys) = x @ sep @ join_with sep (y # ys)"

definition as_posix :: "pure_path \<Rightarrow> string" where
  "as_posix p =
     (if anchor p = '''' \<and> names p = [] then ''.''
      else anchor p @ join_with ''/'' (names p))"

subsection \<open>The file system\<close>

datatype node = Dir | File

type_synonym filesystem = "string list \<rightharpoonup> node"

definition node_at :: "filesystem \<Rightarrow> string list \<Rightarrow> node option" where
  "node_at fs p = (if p = [] then Some Dir else fs p)"

text \<open>One name further from a resolved directory; \<^verbatim>\<open>..\<close> of the root is the root.\<close>

definition step :: "string list \<Rightarrow> string \<Rightarrow> string list" where
  "step cur c = (if c = ''..'' then butlast cur else cur @ [c])"

definition resolve :: "string list \<Rightarrow> string list" where
  "resolve ns = foldl step [] ns"

text \<open>The place in the file system that a path string names.\<close>

definition file_at :: "string \<Rightarrow> string list" where
  "file_at path = resolve (names (parse_path path))"

subsection \<open>The encoder and the world\<close>

record encode_call =
  call_clip :: clip
  call_path :: string
  call_fps :: int
  call_codec :: string
  call_preset :: string
  call_bitrate :: string
  call_audio :: bool
  call_logger :: "string option"

record world =
  files :: filesystem
  encoder_log :: "encode_call list"

record env =
  script_dir :: "string list"
  mkdir :: "filesystem \<Rightarrow> pure_path \<Rightarrow> error option \<times> filesystem"
  encoder :: "encode_call \<Rightarrow> filesystem \<Rightarrow> error option \<times> filesystem"

type_synonym action = "world \<Rightarrow> error option \<times> world"

text \<open>
  \<^verbatim>\<open>clip.write_videofile(path, fps=, codec=, preset=, bitrate=, audio=, logger=)\<close>: the
  call is logged, and the encoder of the environment decides the outcome.
\<close>

definition write_videofile ::
  "env \<Rightarrow> clip \<Rightarrow> string \<Rightarrow> int \<Rightarrow> string \<Rightarrow> string \<Rightarrow> string \<Rightarrow> bool \<Rightarrow> string option \<Rightarrow> action" where
  "write_videofile env clip path fps codec preset bitrate audio logger w =
     (let call = \<lparr>call_clip = clip, call_path = path, call_fps = fps, call_codec = codec,
                  call_preset = preset, call_bitrate = bitrate, call_audio = audio,
                  call_logger = logger\<rparr>;
          outcome = encoder env call (files w)
      in (fst outcome, \<lparr>files = snd outcome, encoder_log = encoder_log w @ [call]\<rparr>))"

subsection \<open>\<^verbatim>\<open>write_video\<close>\<close>

text \<open>\<^verbatim>\<open>Path(__file__).resolve().parent / filename\<close>: the script's directory is absolute.\<close>

definition target_path :: "env \<Rightarrow> string \<Rightarrow> pure_path" where
  "target_path env filename = joinpath \<lparr>anchor = ''/'', names = script_dir env\<rparr> filename"

definition write_video :: "env \<Rightarrow> clip \<Rightarrow> string \<Rightarrow> action" where
  "write_video env clip filename w =
     (let target = target_path env filename
      in case mkdir env (files w) (parent target) of
           (Some e, fs) \<Rightarrow> (Some e, w\<lparr>files := fs\<rparr>)
         | (None, fs) \<Rightarrow>
             write_videofile env clip (as_posix target) FPS ''libx264'' ''ultrafast'' ''500k''
               False None (w\<lparr>files := fs\<rparr>))"

subsection \<open>The demos\<close>






subsection \<open>The entry point\<close>



subsection \<open>Vocabulary of the properties of the writer\<close>

text \<open>The call \<^verbatim>\<open>write_video\<close> makes for a clip and a file name.\<close>

definition video_call :: "env \<Rightarrow> clip \<Rightarrow> string \<Rightarrow> encode_call" where
  "video_call env clip filename =
     \<lparr>call_clip = clip, call_path = as_posix (target_path env filename), call_fps = 24,
      call_codec = ''libx264'', call_preset = ''ultrafast'', call_bitrate = ''500k'',
      call_audio = False, call_logger = None\<rparr>"



text \<open>
  What the libraries promise. \<^verbatim>\<open>mkdir\<close>: when it returns, the path is a directory; and
  it never adds or removes a regular file. The encoder: when it returns, it has written
  the file its path names, and nothing else.
\<close>

definition makes_directory :: "env \<Rightarrow> bool" where
  "makes_directory env =
     (\<forall>fs p. fst (mkdir env fs p) = None \<longrightarrow>
        node_at (snd (mkdir env fs p)) (resolve (names p)) = Some Dir)"





text \<open>
  A world and an environment to run the script in. The file system holds the script's
  directory and no output directory yet. Its \<^verbatim>\<open>mkdir\<close> is the one of a file system
  without links and permissions, where a name may have 255 bytes and a path 4095: it
  walks the names and creates what is missing; it raises \<^verbatim>\<open>ValueError\<close> for a NUL
  character, and an \<^verbatim>\<open>OSError\<close> for a path or a name that is too long and for a file on
  the way. Its encoder writes the file when the directory exists.
\<close>

definition has_nul :: "string list \<Rightarrow> bool" where
  "has_nul ns = list_ex (\<lambda>n. CHR 0x00 \<in> set n) ns"

fun mkdir_walk :: "filesystem \<Rightarrow> string list \<Rightarrow> string list \<Rightarrow> error option \<times> filesystem" where
  "mkdir_walk fs cur [] = (None, fs)"
| "mkdir_walk fs cur (c # cs) =
     (if 255 < length c then (Some OSError, fs)
      else case node_at fs (step cur c) of
             Some Dir \<Rightarrow> mkdir_walk fs (step cur c) cs
           | Some File \<Rightarrow> (Some OSError, fs)
           | None \<Rightarrow> mkdir_walk (fs(step cur c \<mapsto> Dir)) (step cur c) cs)"

definition example_mkdir :: "filesystem \<Rightarrow> pure_path \<Rightarrow> error option \<times> filesystem" where
  "example_mkdir fs p =
     (if has_nul (names p) then (Some ValueError, fs)
      else if 4095 < length (as_posix p) then (Some OSError, fs)
      else mkdir_walk fs [] (names p))"

definition file_encoder :: "encode_call \<Rightarrow> filesystem \<Rightarrow> error option \<times> filesystem" where
  "file_encoder call fs =
     (let p = file_at (call_path call)
      in if p \<noteq> [] \<and> node_at fs (butlast p) = Some Dir \<and> node_at fs p \<noteq> Some Dir
         then (None, fs(p \<mapsto> File))
         else (Some EncoderError, fs))"

definition example_env :: env where
  "example_env =
     \<lparr>script_dir = [''repo'', ''example_videos''], mkdir = example_mkdir,
      encoder = file_encoder\<rparr>"

definition fresh_world :: world where
  "fresh_world =
     \<lparr>files = [[''repo''] \<mapsto> Dir, [''repo'', ''example_videos''] \<mapsto> Dir],
      encoder_log = []\<rparr>"


text \<open>A name of 300 bytes, too long for a directory.\<close>

definition long_name :: string where
  "long_name = replicate 300 CHR ''a''"

section \<open>Properties of the checkerboard\<close>

subsection \<open>Uniform blocks in a flat list\<close>

lemma concat_nth_uniform:
  "\<lbrakk>list_all (\<lambda>xs. length xs = n) xss; i < length xss; j < n\<rbrakk>
   \<Longrightarrow> concat xss ! (i * n + j) = xss ! i ! j"
proof (induction xss arbitrary: i)
  case Nil
  then show ?case by simp
next
  case (Cons xs xss)
  show ?case
  proof (cases i)
    case 0
    with Cons.prems show ?thesis by (simp add: nth_append)
  next
    case (Suc i')
    with Cons.prems have "concat xss ! (i' * n + j) = xss ! i' ! j"
      by (intro Cons.IH) simp_all
    moreover have "Suc i' * n + j = length xs + (i' * n + j)"
      using Cons.prems by simp
    ultimately show ?thesis
      using Suc by (simp only: concat.simps nth_append_length_plus nth_Cons_Suc)
  qed
qed

lemma take_drop_concat_uniform:
  "\<lbrakk>list_all (\<lambda>xs. length xs = n) xss; i < length xss\<rbrakk>
   \<Longrightarrow> take n (drop (i * n) (concat xss)) = xss ! i"
proof (induction xss arbitrary: i)
  case Nil
  then show ?case by simp
next
  case (Cons xs xss)
  show ?case
  proof (cases i)
    case 0
    with Cons.prems show ?thesis by simp
  next
    case (Suc i')
    with Cons.prems have "take n (drop (i' * n) (concat xss)) = xss ! i'"
      by (intro Cons.IH) simp_all
    with Suc Cons.prems show ?thesis by (simp add: add.commute)
  qed
qed

lemma length_concat_uniform:
  "list_all (\<lambda>xs. length xs = n) xss \<Longrightarrow> length (concat xss) = length xss * n"
  by (induction xss) simp_all

lemma chunks_concat:
  "list_all (\<lambda>xs. length xs = c) xss \<Longrightarrow> chunks (length xss) c (concat xss) = xss"
  by (induction xss) simp_all

subsection \<open>The grid in closed form\<close>

lemma length_grid_items: "length (grid_items w h t) = nat h * nat w"
  by (simp add: grid_items_def length_concat_uniform [where n = "nat w"] list_all_iff)

lemma grid_items_nth:
  assumes "0 \<le> x" "x < w" "0 \<le> y" "y < h"
  shows "grid_items w h t ! (nat y * nat w + nat x) = (y div t + x div t) mod 2"
proof -
  let ?xss = "map (\<lambda>r. map (\<lambda>c. (r div t + c div t) mod 2) [0..w - 1]) [0..h - 1]"
  have "concat ?xss ! (nat y * nat w + nat x) = ?xss ! nat y ! nat x"
    using assms by (intro concat_nth_uniform) (simp_all add: list_all_iff)
  also have "\<dots> = (y div t + x div t) mod 2"
    using assms by simp
  finally show ?thesis by (simp add: grid_items_def)
qed

lemma set_grid_items:
  "set (grid_items w h t) = (\<lambda>(y, x). (y div t + x div t) mod 2) ` ({0..h - 1} \<times> {0..w - 1})"
  by (auto simp: grid_items_def)

lemma grid_items_range: "v \<in> set (grid_items w h t) \<Longrightarrow> v = 0 \<or> v = 1"
  by (auto simp: grid_items_def)

lemma flat_index_bound:
  assumes "0 \<le> x" "x < w" "0 \<le> y" "y < h"
  shows "nat y * nat w + nat x < nat h * nat w"
proof -
  have "nat y * nat w + nat x < nat y * nat w + nat w" using assms by simp
  also have "\<dots> = Suc (nat y) * nat w" by simp
  also have "\<dots> \<le> nat h * nat w" using assms by (intro mult_le_mono1) simp
  finally show ?thesis .
qed

lemma checkerboard_grid_items:
  assumes "max 1 tile \<le> int64_max"
  shows "checkerboard_grid (w, h) tile =
           Inr \<lparr>shape = [nat h, nat w], items = grid_items w h (max 1 tile)\<rparr>"
proof -
  have "\<not> max 1 tile < int64_min" by (simp add: int64_min_def)
  with assms show ?thesis
    by (simp add: checkerboard_grid_def floor_divide_def remainder_def np_arange_def
        add_outer_def Let_def int64_min_def int64_max_def map_concat comp_def grid_items_def)
qed

lemma checkerboard_grid_overflow:
  "int64_max < max 1 tile \<Longrightarrow> checkerboard_grid sz tile = Inl OverflowError"
  by (cases sz) (simp add: checkerboard_grid_def floor_divide_def)


subsection \<open>The palette and the frame in closed form\<close>

lemma length_channels: "length (channels c) = 3"
  by (cases c) (simp add: channels_def)

lemma length_palette_row: "length (palette_row colors i) = 3"
  by (simp add: palette_row_def length_channels)

lemma np_array_uint8_valid:
  "valid_colors colors \<Longrightarrow>
     np_array_uint8 colors =
       Inr \<lparr>shape = [2, 3],
            items = map word_of_int (channels (fst colors) @ channels (snd colors))\<rparr>"
  by (simp add: np_array_uint8_def valid_colors_def)

lemma np_array_uint8_invalid:
  "\<not> valid_colors colors \<Longrightarrow> np_array_uint8 colors = Inl OverflowError"
  by (simp add: np_array_uint8_def valid_colors_def)

lemma palette_block:
  "take 3 (drop (nat (i mod 2) * 3) (map word_of_int (channels c0 @ channels c1))) =
     palette_row (c0, c1) (i mod 2)"
proof -
  have "i mod 2 = 0 \<or> i mod 2 = 1" by presburger
  then show ?thesis
    by (cases c0; cases c1) (auto simp: channels_def color_of_def palette_row_def)
qed

lemma uint_palette_row:
  assumes "valid_colors colors"
  shows "map uint (palette_row colors i) = channels (color_of colors i)"
proof -
  have "\<forall>v\<in>set (channels (color_of colors i)). 0 \<le> v \<and> v \<le> 255"
    using assms by (auto simp: valid_colors_def color_of_def list_all_iff)
  then have "\<forall>v\<in>set (channels (color_of colors i)). uint (word_of_int v :: uint8) = v"
    by (auto simp: uint_word_of_int take_bit_eq_mod)
  then show ?thesis by (simp add: palette_row_def map_idI comp_def)
qed

lemma palette_row_inj:
  assumes "valid_colors colors"
  shows "palette_row colors 0 = palette_row colors 1 \<longleftrightarrow> fst colors = snd colors"
proof
  assume "palette_row colors 0 = palette_row colors 1"
  then have "map uint (palette_row colors 0) = map uint (palette_row colors 1)" by simp
  then have "channels (color_of colors 0) = channels (color_of colors 1)"
    by (simp only: uint_palette_row [OF assms])
  then show "fst colors = snd colors"
    by (cases "fst colors"; cases "snd colors") (simp add: channels_def color_of_def)
next
  assume "fst colors = snd colors"
  then show "palette_row colors 0 = palette_row colors 1"
    by (simp add: palette_row_def color_of_def)
qed


lemma frame_items_pixel:
  assumes "k < length is"
  shows "take 3 (drop (k * 3) (frame_items colors is)) = palette_row colors (is ! k)"
proof -
  let ?xss = "map (palette_row colors) is"
  have "take 3 (drop (k * 3) (concat ?xss)) = ?xss ! k"
    using assms by (intro take_drop_concat_uniform) (simp_all add: list_all_iff length_palette_row)
  with assms show ?thesis by (simp add: frame_items_def)
qed

lemma checkerboard_frame_eq:
  assumes "max 1 tile \<le> int64_max" and "valid_colors colors"
  shows "checkerboard_frame (w, h) tile colors =
           Inr \<lparr>shape = [nat h, nat w, 3],
                items = frame_items colors (grid_items w h (max 1 tile))\<rparr>"
proof -
  let ?g = "grid_items w h (max 1 tile)"
  let ?p = "map word_of_int (channels (fst colors) @ channels (snd colors)) :: uint8 list"
  have rng: "\<forall>v\<in>set ?g. v = 0 \<or> v = 1"
    using grid_items_range by blast
  then have ok: "list_all (\<lambda>i. - 2 \<le> i \<and> i < 2) ?g"
    by (auto simp: list_all_iff)
  have blk: "take 3 (drop (nat (v mod 2) * 3) ?p) = palette_row colors v"
    if "v \<in> set ?g" for v
  proof -
    from rng that have "v mod 2 = v" by auto
    with palette_block [of v "fst colors" "snd colors"] show ?thesis by simp
  qed
  have "concat (map (\<lambda>i. take 3 (drop (nat (i mod 2) * 3) ?p)) ?g) = frame_items colors ?g"
    unfolding frame_items_def by (intro arg_cong [where f = concat] map_cong refl blk)
  with ok show ?thesis
    by (simp add: checkerboard_frame_def checkerboard_grid_items [OF assms(1)]
        np_array_uint8_valid [OF assms(2)] take_rows_def)
qed

lemma checkerboard_frame_Inr:
  assumes "checkerboard_frame sz tile colors = Inr frame"
  shows "max 1 tile \<le> int64_max \<and> valid_colors colors"
proof -
  have "max 1 tile \<le> int64_max"
  proof (rule ccontr)
    assume "\<not> max 1 tile \<le> int64_max"
    then have "checkerboard_grid sz tile = Inl OverflowError"
      by (intro checkerboard_grid_overflow) linarith
    with assms show False by (simp add: checkerboard_frame_def)
  qed
  moreover have "valid_colors colors"
  proof (rule ccontr)
    assume "\<not> valid_colors colors"
    then have "np_array_uint8 colors = Inl OverflowError"
      by (rule np_array_uint8_invalid)
    with assms show False
      by (simp add: checkerboard_frame_def split: sum.splits)
  qed
  ultimately show ?thesis ..
qed

lemma frame_pixel_at:
  assumes "0 \<le> x" "x < w" "0 \<le> y" "y < h"
  shows "pixel_at \<lparr>shape = [nat h, nat w, 3], items = frame_items colors (grid_items w h t)\<rparr>
           (nat y) (nat x) = Some (palette_row colors ((y div t + x div t) mod 2))"
  using assms flat_index_bound [OF assms] grid_items_nth [OF assms, of t]
    frame_items_pixel [of "nat y * nat w + nat x" "grid_items w h t" colors]
  by (simp add: pixel_at_def length_grid_items)

lemma pixels_frame:
  "pixels \<lparr>shape = [nat h, nat w, 3], items = frame_items colors (grid_items w h t)\<rparr> =
     map (palette_row colors) (grid_items w h t)"
proof -
  let ?xss = "map (palette_row colors) (grid_items w h t)"
  have "chunks (length ?xss) 3 (concat ?xss) = ?xss"
    by (intro chunks_concat) (simp add: list_all_iff length_palette_row)
  then show ?thesis
    by (simp add: pixels_def frame_items_def length_grid_items)
qed

lemma grid_items_indices:
  assumes "0 < w" "0 < h" "0 < t"
  shows "set (grid_items w h t) = (if t < w \<or> t < h then {0, 1} else {0})"
proof -
  have zero: "0 \<in> set (grid_items w h t)"
  proof -
    have "(0, 0) \<in> {0..h - 1} \<times> {0..w - 1}" using assms by simp
    then have "(\<lambda>(y, x). (y div t + x div t) mod 2) (0, 0) \<in> set (grid_items w h t)"
      unfolding set_grid_items by (rule imageI)
    then show ?thesis by simp
  qed
  have sub: "set (grid_items w h t) \<subseteq> {0, 1}"
    using grid_items_range by blast
  show ?thesis
  proof (cases "t < w \<or> t < h")
    case True
    have "1 \<in> set (grid_items w h t)"
    proof (cases "t < w")
      case True
      then have "(0, t) \<in> {0..h - 1} \<times> {0..w - 1}" using assms by simp
      then have "(\<lambda>(y, x). (y div t + x div t) mod 2) (0, t) \<in> set (grid_items w h t)"
        unfolding set_grid_items by (rule imageI)
      with assms show ?thesis by simp
    next
      case False
      with \<open>t < w \<or> t < h\<close> have "t < h" by simp
      then have "(t, 0) \<in> {0..h - 1} \<times> {0..w - 1}" using assms by simp
      then have "(\<lambda>(y, x). (y div t + x div t) mod 2) (t, 0) \<in> set (grid_items w h t)"
        unfolding set_grid_items by (rule imageI)
      with assms show ?thesis by simp
    qed
    with zero sub True show ?thesis by auto
  next
    case False
    have "v = 0" if "v \<in> set (grid_items w h t)" for v
    proof -
      from that obtain y x where "0 \<le> y" "y \<le> h - 1" "0 \<le> x" "x \<le> w - 1"
        and v: "v = (y div t + x div t) mod 2"
        unfolding set_grid_items by auto
      with False have "y div t = 0" "x div t = 0"
        by (simp_all add: div_pos_pos_trivial)
      with v show ?thesis by simp
    qed
    with zero False show ?thesis by auto
  qed
qed

subsection \<open>The colour of every pixel\<close>


lemma small_frame:
  "checkerboard_frame (4, 3) 2 default_colors =
     Inr \<lparr>shape = [3, 4, 3],
          items = [20, 20, 20, 20, 20, 20, 220, 220, 220, 220, 220, 220,
                   20, 20, 20, 20, 20, 20, 220, 220, 220, 220, 220, 220,
                   220, 220, 220, 220, 220, 220, 20, 20, 20, 20, 20, 20]\<rparr>"
  by (simp add: checkerboard_frame_def checkerboard_grid_def floor_divide_def remainder_def
      np_arange_def add_outer_def np_array_uint8_def take_rows_def channels_def
      default_colors_def int64_min_def int64_max_def upto.simps)


subsection \<open>Two colours in alternating tiles\<close>

lemma parity_index: "(a :: int) mod 2 = 0 \<or> a mod 2 = 1"
  by presburger

lemma tile_index_right:
  assumes "0 < (t :: int)"
  shows "(y div t + (x + t) div t) mod 2 = 1 - (y div t + x div t) mod 2"
proof -
  define a where "a = y div t + x div t"
  from assms have "(x + t) div t = x div t + 1" by (simp add: div_add_self2)
  then have "y div t + (x + t) div t = a + 1" by (simp add: a_def)
  moreover have "(a + 1) mod 2 = 1 - a mod 2" by presburger
  ultimately show ?thesis by (simp only: a_def)
qed

lemma tile_index_below:
  assumes "0 < (t :: int)"
  shows "((y + t) div t + x div t) mod 2 = 1 - (y div t + x div t) mod 2"
proof -
  define a where "a = y div t + x div t"
  from assms have "(y + t) div t = y div t + 1" by (simp add: div_add_self2)
  then have "(y + t) div t + x div t = a + 1" by (simp add: a_def)
  moreover have "(a + 1) mod 2 = 1 - a mod 2" by presburger
  ultimately show ?thesis by (simp only: a_def)
qed

text \<open>
  C2, as the code has it. For a positive size and a positive tile length \<open>t\<close>, every pixel
  of the frame is one of the two palette colours; colour 0 always occurs, colour 1 occurs
  exactly when \<open>t < w\<close> or \<open>t < h\<close>. So the frame has exactly two distinct colours exactly
  when the frame is larger than one tile and the two colours of \<^verbatim>\<open>colors\<close> differ, and one
  colour otherwise. The colours alternate: the pixel \<open>(x, y)\<close> has the colour of the index
  \<open>i = ((y // t) + (x // t)) mod 2\<close>, which is 0 or 1, so pixels of the same tile have the
  same colour; the pixel one tile to the right and the pixel one tile below have the
  colour of the other index, \<open>1 - i\<close>.
\<close>

theorem checkerboard_two_colors:
  assumes "checkerboard_frame (w, h) t colors = Inr frame"
    and "0 < w" and "0 < h" and "0 < t"
  shows "set (pixels frame) =
           (if t < w \<or> t < h then {palette_row colors 0, palette_row colors 1}
            else {palette_row colors 0}) \<and>
         card (set (pixels frame)) =
           (if (t < w \<or> t < h) \<and> fst colors \<noteq> snd colors then 2 else 1) \<and>
         (\<forall>x y x' y'. 0 \<le> x \<and> x < w \<and> 0 \<le> y \<and> y < h \<and> 0 \<le> x' \<and> x' < w \<and> 0 \<le> y' \<and> y' < h \<and>
            x div t = x' div t \<and> y div t = y' div t \<longrightarrow>
            pixel_at frame (nat y) (nat x) = pixel_at frame (nat y') (nat x')) \<and>
         (\<forall>x y. 0 \<le> x \<and> x < w \<and> 0 \<le> y \<and> y < h \<longrightarrow>
            ((y div t + x div t) mod 2 = 0 \<or> (y div t + x div t) mod 2 = 1) \<and>
            pixel_at frame (nat y) (nat x) =
              Some (palette_row colors ((y div t + x div t) mod 2))) \<and>
         (\<forall>x y. 0 \<le> x \<and> x + t < w \<and> 0 \<le> y \<and> y < h \<longrightarrow>
            pixel_at frame (nat y) (nat (x + t)) =
              Some (palette_row colors (1 - (y div t + x div t) mod 2))) \<and>
         (\<forall>x y. 0 \<le> x \<and> x < w \<and> 0 \<le> y \<and> y + t < h \<longrightarrow>
            pixel_at frame (nat (y + t)) (nat x) =
              Some (palette_row colors (1 - (y div t + x div t) mod 2)))"
proof -
  from checkerboard_frame_Inr [OF assms(1)]
  have tile: "max 1 t \<le> int64_max" and cols: "valid_colors colors" by simp_all
  from assms(4) have t: "max 1 t = t" by simp
  have f: "frame = \<lparr>shape = [nat h, nat w, 3], items = frame_items colors (grid_items w h t)\<rparr>"
    using checkerboard_frame_eq [OF tile cols, of w h] assms(1) t by simp
  have px: "pixel_at frame (nat y) (nat x) = Some (palette_row colors ((y div t + x div t) mod 2))"
    if "0 \<le> x" "x < w" "0 \<le> y" "y < h" for x y
    using frame_pixel_at [OF that, of colors t] by (simp add: f)
  have "set (pixels frame) = palette_row colors ` set (grid_items w h t)"
    by (simp add: f pixels_frame)
  then have colours: "set (pixels frame) =
           (if t < w \<or> t < h then {palette_row colors 0, palette_row colors 1}
            else {palette_row colors 0})"
    by (simp add: grid_items_indices [OF assms(2-4)])
  have count: "card (set (pixels frame)) =
           (if (t < w \<or> t < h) \<and> fst colors \<noteq> snd colors then 2 else 1)"
    using palette_row_inj [OF cols] by (auto simp: colours)
  have same: "\<forall>x y x' y'. 0 \<le> x \<and> x < w \<and> 0 \<le> y \<and> y < h \<and> 0 \<le> x' \<and> x' < w \<and> 0 \<le> y' \<and> y' < h \<and>
            x div t = x' div t \<and> y div t = y' div t \<longrightarrow>
            pixel_at frame (nat y) (nat x) = pixel_at frame (nat y') (nat x')"
    by (simp add: px)
  have here: "((y div t + x div t) mod 2 = 0 \<or> (y div t + x div t) mod 2 = 1) \<and>
            pixel_at frame (nat y) (nat x) =
              Some (palette_row colors ((y div t + x div t) mod 2))"
    if "0 \<le> x \<and> x < w \<and> 0 \<le> y \<and> y < h" for x y
  proof -
    have "(y div t + x div t) mod 2 = 0 \<or> (y div t + x div t) mod 2 = 1"
      by (rule parity_index)
    moreover from that have "pixel_at frame (nat y) (nat x) =
              Some (palette_row colors ((y div t + x div t) mod 2))"
      by (intro px) simp_all
    ultimately show ?thesis ..
  qed
  have right: "pixel_at frame (nat y) (nat (x + t)) =
              Some (palette_row colors (1 - (y div t + x div t) mod 2))"
    if "0 \<le> x \<and> x + t < w \<and> 0 \<le> y \<and> y < h" for x y
  proof -
    from that assms(4) have "0 \<le> x + t" "x + t < w" "0 \<le> y" "y < h"
      by simp_all
    then have "pixel_at frame (nat y) (nat (x + t)) =
                 Some (palette_row colors ((y div t + (x + t) div t) mod 2))"
      by (rule px)
    then show ?thesis
      by (simp only: tile_index_right [OF assms(4)])
  qed
  have below: "pixel_at frame (nat (y + t)) (nat x) =
              Some (palette_row colors (1 - (y div t + x div t) mod 2))"
    if "0 \<le> x \<and> x < w \<and> 0 \<le> y \<and> y + t < h" for x y
  proof -
    from that assms(4) have "0 \<le> x" "x < w" "0 \<le> y + t" "y + t < h"
      by simp_all
    then have "pixel_at frame (nat (y + t)) (nat x) =
                 Some (palette_row colors (((y + t) div t + x div t) mod 2))"
      by (rule px)
    then show ?thesis
      by (simp only: tile_index_below [OF assms(4)])
  qed
  from colours count same here right below show ?thesis by blast
qed

theorem checkerboard_two_colors_witness:
  "checkerboard_frame (4, 3) 2 default_colors =
     Inr \<lparr>shape = [3, 4, 3],
          items = [20, 20, 20, 20, 20, 20, 220, 220, 220, 220, 220, 220,
                   20, 20, 20, 20, 20, 20, 220, 220, 220, 220, 220, 220,
                   220, 220, 220, 220, 220, 220, 20, 20, 20, 20, 20, 20]\<rparr> \<and>
   card (set (pixels
     (\<lparr>shape = [3, 4, 3],
       items = [20, 20, 20, 20, 20, 20, 220, 220, 220, 220, 220, 220,
                20, 20, 20, 20, 20, 20, 220, 220, 220, 220, 220, 220,
                220, 220, 220, 220, 220, 220, 20, 20, 20, 20, 20, 20]\<rparr> :: uint8 ndarray))) = 2"
  using small_frame checkerboard_two_colors [OF small_frame, THEN conjunct2, THEN conjunct1]
  by (simp add: default_colors_def)

text \<open>
  C2, as the specification states it, fails: a frame of width 3 and height 2 with tile
  length 5 lies inside one tile and has a single colour.
\<close>

theorem checkerboard_two_colors_counterexample:
  "map_sum id (\<lambda>frame. card (set (pixels frame))) (checkerboard_frame (3, 2) 5 default_colors)
     = Inr 1"
  by (simp add: checkerboard_frame_def checkerboard_grid_def floor_divide_def remainder_def
      np_arange_def add_outer_def np_array_uint8_def take_rows_def channels_def
      default_colors_def pixels_def int64_min_def int64_max_def upto.simps)

subsection \<open>Shape and element type\<close>


lemma tiny_frame:
  "checkerboard_frame (2, 1) 1 default_colors =
     Inr \<lparr>shape = [1, 2, 3], items = [20, 20, 20, 220, 220, 220]\<rparr>"
  by (simp add: checkerboard_frame_def checkerboard_grid_def floor_divide_def remainder_def
      np_arange_def add_outer_def np_array_uint8_def take_rows_def channels_def
      default_colors_def int64_min_def int64_max_def upto.simps)


subsection \<open>Non-positive tile lengths\<close>

lemma valid_default_colors: "valid_colors default_colors"
  by (simp add: valid_colors_def default_colors_def channels_def)

text \<open>
  C4. A tile length of zero or below is not rejected: for colours that fit \<^verbatim>\<open>uint8\<close>,
  \<^verbatim>\<open>checkerboard_clip\<close> returns a clip whose frame has the shape of the requested size
  and is the checkerboard of tile length 1.
\<close>

theorem checkerboard_nonpositive_tile:
  assumes "tile \<le> 0" and "valid_colors colors"
  shows "\<exists>frame. checkerboard_frame (w, h) tile colors = Inr frame \<and>
           checkerboard_clip (w, h) duration tile colors =
             Inr (with_fps (with_duration (ImageClip frame) duration) FPS) \<and>
           shape frame = [nat h, nat w, 3] \<and>
           (\<forall>x y. 0 \<le> x \<and> x < w \<and> 0 \<le> y \<and> y < h \<longrightarrow>
              (\<exists>px. pixel_at frame (nat y) (nat x) = Some px \<and>
                 map uint px = channels (color_of colors ((y + x) mod 2))))"
proof -
  let ?frame = "\<lparr>shape = [nat h, nat w, 3], items = frame_items colors (grid_items w h 1)\<rparr>"
  from assms(1) have t: "max 1 tile = 1" by simp
  then have "max 1 tile \<le> int64_max" by (simp add: int64_max_def)
  from checkerboard_frame_eq [OF this assms(2), of w h] t
  have f: "checkerboard_frame (w, h) tile colors = Inr ?frame"
    by simp
  have px: "\<exists>px. pixel_at ?frame (nat y) (nat x) = Some px \<and>
              map uint px = channels (color_of colors ((y + x) mod 2))"
    if "0 \<le> x \<and> x < w \<and> 0 \<le> y \<and> y < h" for x y
  proof -
    from that have "0 \<le> x" "x < w" "0 \<le> y" "y < h" by simp_all
    from frame_pixel_at [OF this, of colors 1] uint_palette_row [OF assms(2)]
    show ?thesis by simp
  qed
  show ?thesis
    using f px by (simp add: checkerboard_clip_def)
qed

theorem checkerboard_nonpositive_tile_witness:
  "(- 3 :: int) \<le> 0 \<and> valid_colors default_colors \<and>
   (\<exists>frame. checkerboard_frame (2, 1) (- 3) default_colors = Inr frame \<and>
      checkerboard_clip (2, 1) 2 (- 3) default_colors =
        Inr (with_fps (with_duration (ImageClip frame) 2) FPS) \<and>
      shape frame = [1, 2, 3] \<and>
      (\<exists>px. pixel_at frame 0 1 = Some px \<and> map uint px = [220, 220, 220]))"
proof -
  have neg: "(- 3 :: int) \<le> 0" by simp
  from checkerboard_nonpositive_tile [OF neg valid_default_colors, of 2 1 2]
  obtain frame where frame: "checkerboard_frame (2, 1) (- 3) default_colors = Inr frame"
    and clip: "checkerboard_clip (2, 1) 2 (- 3) default_colors =
        Inr (with_fps (with_duration (ImageClip frame) 2) FPS)"
    and shp: "shape frame = [nat 1, nat 2, 3]"
    and px: "\<forall>x y. 0 \<le> x \<and> x < 2 \<and> 0 \<le> y \<and> y < 1 \<longrightarrow>
              (\<exists>px. pixel_at frame (nat y) (nat x) = Some px \<and>
                 map uint px = channels (color_of default_colors ((y + x) mod 2)))"
    by blast
  from px [rule_format, of 1 0]
  have "\<exists>px. pixel_at frame 0 1 = Some px \<and> map uint px = [220, 220, 220]"
    by (simp add: default_colors_def color_of_def channels_def)
  with neg valid_default_colors frame clip shp show ?thesis by auto
qed

text \<open>
  C9. Every tile length of zero or below gives the frame, and the clip, of tile length 1,
  for every size, duration and colours (also when the colours make both calls fail).
\<close>

theorem checkerboard_tile_clamp:
  assumes "tile \<le> 0"
  shows "checkerboard_frame sz tile colors = checkerboard_frame sz 1 colors \<and>
         checkerboard_clip sz duration tile colors = checkerboard_clip sz duration 1 colors"
proof -
  from assms have "max 1 tile = max 1 1" by simp
  then have "checkerboard_grid sz tile = checkerboard_grid sz 1"
    by (simp only: checkerboard_grid_def)
  then show ?thesis
    by (simp only: checkerboard_frame_def checkerboard_clip_def)
qed

theorem checkerboard_tile_clamp_witness:
  "checkerboard_frame (2, 1) (- 7) default_colors = checkerboard_frame (2, 1) 1 default_colors \<and>
   checkerboard_frame (2, 1) 1 default_colors =
     Inr \<lparr>shape = [1, 2, 3], items = [20, 20, 20, 220, 220, 220]\<rparr> \<and>
   checkerboard_clip (2, 1) 2 (- 7) default_colors = checkerboard_clip (2, 1) 2 1 default_colors"
  using checkerboard_tile_clamp [of "- 7" "(2, 1)" default_colors 2] tiny_frame by simp

section \<open>Properties of the writer\<close>

subsection \<open>Parsing the file names of the demos\<close>

lemma split_on_no_sep: "sep \<notin> set s \<Longrightarrow> split_on sep s = [s]"
  by (induction s) (auto simp: Let_def)

lemma split_on_append:
  "sep \<notin> set xs \<Longrightarrow> split_on sep (xs @ sep # ys) = xs # split_on sep ys"
  by (induction xs) (auto simp: Let_def)

lemma parse_out_file:
  assumes "CHR ''/'' \<notin> set name" and "name \<noteq> ''''" and "name \<noteq> ''.''"
  shows "parse_path (''./out/'' @ name) = \<lparr>anchor = '''', names = [''out'', name]\<rparr>"
proof -
  have "split_on CHR ''/'' (''./out/'' @ name) = [''.'', ''out'', name]"
    using split_on_append [of "CHR ''/''" "''.''" "''out/'' @ name"]
      split_on_append [of "CHR ''/''" "''out''" name] split_on_no_sep [OF assms(1)]
    by simp
  with assms show ?thesis
    by (simp add: parse_path_def splitroot_def)
qed

lemma target_out_file:
  assumes "CHR ''/'' \<notin> set name" and "name \<noteq> ''''" and "name \<noteq> ''.''"
  shows "target_path env (''./out/'' @ name) =
           \<lparr>anchor = ''/'', names = script_dir env @ [''out'', name]\<rparr>"
  by (simp only: target_path_def joinpath_def parse_out_file [OF assms] Let_def) simp

lemma join_with_snoc:
  "ns \<noteq> [] \<Longrightarrow> join_with sep (ns @ [n]) = join_with sep ns @ sep @ n"
  by (induction sep ns rule: join_with.induct) simp_all

lemma parse_out_dir_file:
  assumes "CHR ''/'' \<notin> set d" and "d \<noteq> ''''" and "d \<noteq> ''.''"
    and "CHR ''/'' \<notin> set name" and "name \<noteq> ''''" and "name \<noteq> ''.''"
  shows "parse_path (''./out/'' @ d @ ''/'' @ name) = \<lparr>anchor = '''', names = [''out'', d, name]\<rparr>"
proof -
  have "split_on CHR ''/'' (''./out/'' @ d @ ''/'' @ name) = [''.'', ''out'', d, name]"
    using split_on_append [of "CHR ''/''" "''.''" "''out/'' @ d @ ''/'' @ name"]
      split_on_append [of "CHR ''/''" "''out''" "d @ ''/'' @ name"]
      split_on_append [of "CHR ''/''" d name] split_on_no_sep [OF assms(4)] assms(1)
    by simp
  with assms show ?thesis
    by (simp add: parse_path_def splitroot_def)
qed

subsection \<open>The example environment\<close>


lemma mkdir_walk_dir:
  "\<lbrakk>mkdir_walk fs cur ns = (None, fs'); node_at fs cur = Some Dir\<rbrakk>
   \<Longrightarrow> node_at fs' (foldl step cur ns) = Some Dir"
proof (induction ns arbitrary: fs cur)
  case Nil
  then show ?case by simp
next
  case (Cons c cs)
  from Cons.prems have short: "\<not> 255 < length c"
    by (auto split: if_splits)
  show ?case
  proof (cases "node_at fs (step cur c)")
    case None
    with Cons.prems short
    have "mkdir_walk (fs(step cur c \<mapsto> Dir)) (step cur c) cs = (None, fs')"
      by simp
    moreover have "node_at (fs(step cur c \<mapsto> Dir)) (step cur c) = Some Dir"
      by (simp add: node_at_def)
    ultimately show ?thesis
      using Cons.IH by simp
  next
    case (Some n)
    with Cons.prems Cons.IH short show ?thesis
      by (cases n) auto
  qed
qed


lemma example_makes_directory: "makes_directory example_env"
proof -
  have "node_at (snd (example_mkdir fs p)) (resolve (names p)) = Some Dir"
    if "fst (example_mkdir fs p) = None" for fs p
  proof -
    from that have "mkdir_walk fs [] (names p) = (None, snd (example_mkdir fs p))"
      by (simp add: example_mkdir_def prod_eq_iff split: if_splits)
    then show ?thesis
      unfolding resolve_def by (rule mkdir_walk_dir) (simp add: node_at_def)
  qed
  then show ?thesis
    by (simp add: makes_directory_def example_env_def)
qed



lemma long_name_plain:
  "CHR ''/'' \<notin> set long_name" "CHR 0x00 \<notin> set long_name" "long_name \<noteq> ''''"
  "long_name \<noteq> ''.''" "length long_name = 300"
proof -
  show len: "length long_name = 300"
    by (simp add: long_name_def)
  show "CHR ''/'' \<notin> set long_name" "CHR 0x00 \<notin> set long_name"
    by (simp_all add: long_name_def)
  show "long_name \<noteq> ''''"
    using len by auto
  show "long_name \<noteq> ''.''"
  proof
    assume "long_name = ''.''"
    then have "length long_name = length ''.''" by (rule arg_cong)
    with len show False by simp
  qed
qed

subsection \<open>One call of the encoder\<close>

lemma write_video_ok:
  assumes "mkdir env (files w) (parent (target_path env filename)) = (None, fs1)"
  shows "write_video env clip filename w =
           (fst (encoder env (video_call env clip filename) fs1),
            \<lparr>files = snd (encoder env (video_call env clip filename) fs1),
             encoder_log = encoder_log w @ [video_call env clip filename]\<rparr>)"
  using assms by (simp add: write_video_def write_videofile_def video_call_def FPS_def Let_def)

lemma write_video_fail:
  assumes "mkdir env (files w) (parent (target_path env filename)) = (Some e, fs1)"
  shows "write_video env clip filename w = (Some e, w\<lparr>files := fs1\<rparr>)"
  using assms by (simp add: write_video_def Let_def)

lemma write_video_log:
  "encoder_log (snd (write_video env clip filename w)) =
     encoder_log w @
       (if fst (mkdir env (files w) (parent (target_path env filename))) = None
        then [video_call env clip filename] else [])"
proof (cases "mkdir env (files w) (parent (target_path env filename))")
  case (Pair m fs1)
  then show ?thesis
    by (cases m) (simp_all add: write_video_ok write_video_fail)
qed

lemma write_video_None:
  assumes "fst (write_video env clip filename w) = None"
  shows "fst (mkdir env (files w) (parent (target_path env filename))) = None"
proof (cases "mkdir env (files w) (parent (target_path env filename))")
  case (Pair m fs1)
  with assms show ?thesis
    by (cases m) (simp_all add: write_video_fail)
qed

text \<open>
  C6, as the code has it. For every clip and file name, \<^verbatim>\<open>write_video\<close> calls the encoder
  exactly once when creating the directory raised nothing, and not at all otherwise; the
  call has the frame rate 24, the codec \<^verbatim>\<open>libx264\<close>, the preset \<^verbatim>\<open>ultrafast\<close>, the bitrate
  \<^verbatim>\<open>500k\<close>, no audio and no logger, and its path is the script's directory joined with the
  file name. For a file name \<^verbatim>\<open>./out/name\<close>, as every demo passes, the file lies in the
  directory \<^verbatim>\<open>out\<close> of the script's directory.
\<close>

theorem write_video_call:
  "(fst (mkdir env (files w) (parent (target_path env filename))) = None \<longrightarrow>
      encoder_log (snd (write_video env clip filename w)) =
        encoder_log w @ [video_call env clip filename]) \<and>
   (fst (mkdir env (files w) (parent (target_path env filename))) \<noteq> None \<longrightarrow>
      encoder_log (snd (write_video env clip filename w)) = encoder_log w \<and>
      fst (write_video env clip filename w) =
        fst (mkdir env (files w) (parent (target_path env filename)))) \<and>
   video_call env clip filename =
     \<lparr>call_clip = clip,
      call_path = as_posix (joinpath \<lparr>anchor = ''/'', names = script_dir env\<rparr> filename),
      call_fps = 24, call_codec = ''libx264'', call_preset = ''ultrafast'',
      call_bitrate = ''500k'', call_audio = False, call_logger = None\<rparr> \<and>
   (CHR ''/'' \<notin> set name \<and> name \<noteq> '''' \<and> name \<noteq> ''.'' \<and> name \<noteq> ''..'' \<longrightarrow>
      parent (target_path env (''./out/'' @ name)) =
        \<lparr>anchor = ''/'', names = script_dir env @ [''out'']\<rparr> \<and>
      call_path (video_call env clip (''./out/'' @ name)) =
        as_posix \<lparr>anchor = ''/'', names = script_dir env @ [''out'']\<rparr> @ ''/'' @ name)"
proof -
  have log: "fst (mkdir env (files w) (parent (target_path env filename))) = None \<longrightarrow>
      encoder_log (snd (write_video env clip filename w)) =
        encoder_log w @ [video_call env clip filename]"
    by (simp add: write_video_log)
  have nolog: "fst (mkdir env (files w) (parent (target_path env filename))) \<noteq> None \<longrightarrow>
      encoder_log (snd (write_video env clip filename w)) = encoder_log w \<and>
      fst (write_video env clip filename w) =
        fst (mkdir env (files w) (parent (target_path env filename)))"
  proof (cases "mkdir env (files w) (parent (target_path env filename))")
    case (Pair m fs1)
    then show ?thesis
      by (cases m) (simp_all add: write_video_fail)
  qed
  have call: "video_call env clip filename =
     \<lparr>call_clip = clip,
      call_path = as_posix (joinpath \<lparr>anchor = ''/'', names = script_dir env\<rparr> filename),
      call_fps = 24, call_codec = ''libx264'', call_preset = ''ultrafast'',
      call_bitrate = ''500k'', call_audio = False, call_logger = None\<rparr>"
    by (simp add: video_call_def target_path_def)
  have out: "parent (target_path env (''./out/'' @ name)) =
        \<lparr>anchor = ''/'', names = script_dir env @ [''out'']\<rparr> \<and>
      call_path (video_call env clip (''./out/'' @ name)) =
        as_posix \<lparr>anchor = ''/'', names = script_dir env @ [''out'']\<rparr> @ ''/'' @ name"
    if "CHR ''/'' \<notin> set name \<and> name \<noteq> '''' \<and> name \<noteq> ''.'' \<and> name \<noteq> ''..''"
  proof -
    from that have tp: "target_path env (''./out/'' @ name) =
           \<lparr>anchor = ''/'', names = script_dir env @ [''out'', name]\<rparr>"
      by (intro target_out_file) simp_all
    have "join_with ''/'' ((script_dir env @ [''out'']) @ [name]) =
        join_with ''/'' (script_dir env @ [''out'']) @ ''/'' @ name"
      by (rule join_with_snoc) simp
    then have "as_posix \<lparr>anchor = ''/'', names = script_dir env @ [''out'', name]\<rparr> =
        as_posix \<lparr>anchor = ''/'', names = script_dir env @ [''out'']\<rparr> @ ''/'' @ name"
      by (simp add: as_posix_def)
    then have "call_path (video_call env clip (''./out/'' @ name)) =
        as_posix \<lparr>anchor = ''/'', names = script_dir env @ [''out'']\<rparr> @ ''/'' @ name"
      unfolding video_call_def tp by simp
    moreover have "parent (target_path env (''./out/'' @ name)) =
        \<lparr>anchor = ''/'', names = script_dir env @ [''out'']\<rparr>"
      unfolding tp by (simp add: parent_def butlast_append)
    ultimately show ?thesis by simp
  qed
  from log nolog call out show ?thesis by blast
qed

theorem write_video_call_witness:
  "fst (mkdir example_env (files fresh_world)
          (parent (target_path example_env ''./out/demo.mp4''))) = None \<and>
   map call_path
     (encoder_log (snd (write_video example_env (ColorClip (2, 2) (0, 0, 0) 1)
        ''./out/demo.mp4'' fresh_world))) = [''/repo/example_videos/out/demo.mp4''] \<and>
   map call_fps
     (encoder_log (snd (write_video example_env (ColorClip (2, 2) (0, 0, 0) 1)
        ''./out/demo.mp4'' fresh_world))) = [24] \<and>
   as_posix (parent (target_path example_env (''./out/'' @ ''demo.mp4''))) =
     ''/repo/example_videos/out''"
proof -
  note call = write_video_call [where w = fresh_world and env = example_env
      and filename = "''./out/demo.mp4''" and clip = "ColorClip (2, 2) (0, 0, 0) 1"
      and name = "''demo.mp4''"]
  have made: "fst (mkdir example_env (files fresh_world)
          (parent (target_path example_env ''./out/demo.mp4''))) = None"
    by (simp add: example_mkdir_def has_nul_def as_posix_def parent_def target_path_def joinpath_def
        parse_path_def splitroot_def example_env_def fresh_world_def step_def node_at_def)
  with call have "encoder_log (snd (write_video example_env (ColorClip (2, 2) (0, 0, 0) 1)
        ''./out/demo.mp4'' fresh_world)) =
      encoder_log fresh_world @
        [video_call example_env (ColorClip (2, 2) (0, 0, 0) 1) ''./out/demo.mp4'']"
    by blast
  then have log: "map call_path
     (encoder_log (snd (write_video example_env (ColorClip (2, 2) (0, 0, 0) 1)
        ''./out/demo.mp4'' fresh_world))) = [''/repo/example_videos/out/demo.mp4''] \<and>
    map call_fps
     (encoder_log (snd (write_video example_env (ColorClip (2, 2) (0, 0, 0) 1)
        ''./out/demo.mp4'' fresh_world))) = [24]"
    by (simp add: video_call_def as_posix_def target_path_def joinpath_def parse_path_def
        splitroot_def example_env_def fresh_world_def)
  from call have "parent (target_path example_env (''./out/'' @ ''demo.mp4'')) =
        \<lparr>anchor = ''/'', names = script_dir example_env @ [''out'']\<rparr>"
    by simp
  then have "as_posix (parent (target_path example_env (''./out/'' @ ''demo.mp4''))) =
     ''/repo/example_videos/out''"
    by (simp add: as_posix_def example_env_def)
  with made log show ?thesis by blast
qed

text \<open>
  C6, as the specification states it, fails: the directory depends on the file name. For
  \<^verbatim>\<open>clip.mp4\<close> the file is written into the script's directory itself, and for an
  absolute file name outside of it.
\<close>

theorem write_video_call_counterexample:
  "map call_path
     (encoder_log (snd (write_video example_env (ColorClip (2, 2) (0, 0, 0) 1)
        ''clip.mp4'' fresh_world))) = [''/repo/example_videos/clip.mp4''] \<and>
   as_posix (parent (target_path example_env ''clip.mp4'')) = ''/repo/example_videos'' \<and>
   map call_path
     (encoder_log (snd (write_video example_env (ColorClip (2, 2) (0, 0, 0) 1)
        ''/tmp/clip.mp4'' fresh_world))) = [''/tmp/clip.mp4'']"
  by (simp add: write_video_def write_videofile_def example_mkdir_def has_nul_def parent_def
      target_path_def joinpath_def parse_path_def splitroot_def as_posix_def example_env_def
      fresh_world_def step_def node_at_def Let_def)

subsection \<open>The files of the demos\<close>














subsection \<open>The order of the demos\<close>








subsection \<open>The directory is made before the encoder runs\<close>

text \<open>
  C10, as the code has it. For every file name, \<^verbatim>\<open>write_video\<close> makes the directory of
  the target, with the directories above it, before it calls the encoder. When \<^verbatim>\<open>mkdir\<close>
  raised nothing, the encoder runs in the file system \<^verbatim>\<open>mkdir\<close> left, in which that
  directory exists if \<^verbatim>\<open>mkdir\<close> keeps its promise. When \<^verbatim>\<open>mkdir\<close> raised, for whatever
  reason, \<^verbatim>\<open>write_video\<close> raises the same exception and the encoder is not called.
\<close>

theorem write_video_creates_parent:
  assumes "mkdir env (files w) (parent (target_path env filename)) = (m, fs1)"
  shows "(m = None \<longrightarrow>
           write_video env clip filename w =
             (fst (encoder env (video_call env clip filename) fs1),
              \<lparr>files = snd (encoder env (video_call env clip filename) fs1),
               encoder_log = encoder_log w @ [video_call env clip filename]\<rparr>) \<and>
           (makes_directory env \<longrightarrow>
              node_at fs1 (resolve (names (parent (target_path env filename)))) = Some Dir)) \<and>
         (\<forall>e. m = Some e \<longrightarrow>
            write_video env clip filename w = (Some e, w\<lparr>files := fs1\<rparr>) \<and>
            encoder_log (snd (write_video env clip filename w)) = encoder_log w)"
proof -
  have made: "write_video env clip filename w =
             (fst (encoder env (video_call env clip filename) fs1),
              \<lparr>files = snd (encoder env (video_call env clip filename) fs1),
               encoder_log = encoder_log w @ [video_call env clip filename]\<rparr>)"
    if "m = None"
    using that assms by (simp add: write_video_ok)
  have dir: "node_at fs1 (resolve (names (parent (target_path env filename)))) = Some Dir"
    if "m = None" and "makes_directory env"
  proof -
    from that(1) assms
    have "fst (mkdir env (files w) (parent (target_path env filename))) = None"
      and "snd (mkdir env (files w) (parent (target_path env filename))) = fs1"
      by simp_all
    with that(2) show ?thesis
      unfolding makes_directory_def by blast
  qed
  have failed: "write_video env clip filename w = (Some e, w\<lparr>files := fs1\<rparr>) \<and>
            encoder_log (snd (write_video env clip filename w)) = encoder_log w"
    if "m = Some e" for e
    using that assms by (simp add: write_video_fail)
  from made dir failed show ?thesis by blast
qed

theorem write_video_creates_parent_witness:
  "mkdir example_env (files fresh_world) (parent (target_path example_env ''./out/demo.mp4'')) =
     (None, [[''repo''] \<mapsto> Dir, [''repo'', ''example_videos''] \<mapsto> Dir,
             [''repo'', ''example_videos'', ''out''] \<mapsto> Dir]) \<and>
   files fresh_world [''repo'', ''example_videos'', ''out''] = None \<and>
   node_at [[''repo''] \<mapsto> Dir, [''repo'', ''example_videos''] \<mapsto> Dir,
            [''repo'', ''example_videos'', ''out''] \<mapsto> Dir]
     (resolve (names (parent (target_path example_env ''./out/demo.mp4'')))) = Some Dir \<and>
   resolve (names (parent (target_path example_env ''./out/demo.mp4''))) =
     [''repo'', ''example_videos'', ''out''] \<and>
   fst (write_video example_env (ColorClip (2, 2) (0, 0, 0) 1) ''./out/demo.mp4'' fresh_world) =
     None"
proof -
  have made: "mkdir example_env (files fresh_world)
       (parent (target_path example_env ''./out/demo.mp4'')) =
     (None, [[''repo''] \<mapsto> Dir, [''repo'', ''example_videos''] \<mapsto> Dir,
             [''repo'', ''example_videos'', ''out''] \<mapsto> Dir])"
    by (simp add: example_mkdir_def has_nul_def as_posix_def parent_def target_path_def
        joinpath_def parse_path_def splitroot_def example_env_def fresh_world_def step_def
        node_at_def)
  have fresh: "files fresh_world [''repo'', ''example_videos'', ''out''] = None"
    by (simp add: fresh_world_def)
  have place: "resolve (names (parent (target_path example_env ''./out/demo.mp4''))) =
     [''repo'', ''example_videos'', ''out'']"
    by (simp add: resolve_def parent_def target_path_def joinpath_def parse_path_def
        splitroot_def example_env_def step_def)
  note parent = write_video_creates_parent [OF made, of "ColorClip (2, 2) (0, 0, 0) 1"]
  from parent example_makes_directory
  have dir: "node_at [[''repo''] \<mapsto> Dir, [''repo'', ''example_videos''] \<mapsto> Dir,
            [''repo'', ''example_videos'', ''out''] \<mapsto> Dir]
     (resolve (names (parent (target_path example_env ''./out/demo.mp4'')))) = Some Dir"
    by blast
  from parent have "write_video example_env (ColorClip (2, 2) (0, 0, 0) 1) ''./out/demo.mp4''
        fresh_world =
      (fst (encoder example_env
              (video_call example_env (ColorClip (2, 2) (0, 0, 0) 1) ''./out/demo.mp4'')
              [[''repo''] \<mapsto> Dir, [''repo'', ''example_videos''] \<mapsto> Dir,
               [''repo'', ''example_videos'', ''out''] \<mapsto> Dir]),
       \<lparr>files = snd (encoder example_env
              (video_call example_env (ColorClip (2, 2) (0, 0, 0) 1) ''./out/demo.mp4'')
              [[''repo''] \<mapsto> Dir, [''repo'', ''example_videos''] \<mapsto> Dir,
               [''repo'', ''example_videos'', ''out''] \<mapsto> Dir]),
        encoder_log = encoder_log fresh_world @
          [video_call example_env (ColorClip (2, 2) (0, 0, 0) 1) ''./out/demo.mp4'']\<rparr>)"
    by blast
  then have written: "fst (write_video example_env (ColorClip (2, 2) (0, 0, 0) 1)
        ''./out/demo.mp4'' fresh_world) = None"
    by (simp add: video_call_def file_encoder_def file_at_def target_path_def joinpath_def
        parse_path_def splitroot_def as_posix_def example_env_def resolve_def step_def
        node_at_def)
  from made fresh dir place written show ?thesis by blast
qed

text \<open>
  C10, as the specification states it, fails: a directory that does not exist yet can
  make the write fail. In a file system without any regular file, where the name of the
  missing directory has 300 bytes, \<^verbatim>\<open>mkdir\<close> makes the directory \<^verbatim>\<open>out\<close> and then raises
  an \<^verbatim>\<open>OSError\<close> (file name too long); \<^verbatim>\<open>write_video\<close> raises it in turn and the encoder
  is not called.
\<close>

theorem write_video_creates_parent_counterexample:
  "{q. files fresh_world q = Some File} = {} \<and>
   files fresh_world [''repo'', ''example_videos'', ''out'', long_name] = None \<and>
   parent (target_path example_env (''./out/'' @ long_name @ ''/clip.mp4'')) =
     \<lparr>anchor = ''/'', names = [''repo'', ''example_videos'', ''out'', long_name]\<rparr> \<and>
   write_video example_env (ColorClip (2, 2) (0, 0, 0) 1)
       (''./out/'' @ long_name @ ''/clip.mp4'') fresh_world =
     (Some OSError,
      \<lparr>files = [[''repo''] \<mapsto> Dir, [''repo'', ''example_videos''] \<mapsto> Dir,
                [''repo'', ''example_videos'', ''out''] \<mapsto> Dir],
       encoder_log = []\<rparr>)"
proof -
  have none: "{q. files fresh_world q = Some File} = {}"
    by (simp add: fresh_world_def)
  have missing: "files fresh_world [''repo'', ''example_videos'', ''out'', long_name] = None"
    by (simp add: fresh_world_def)
  have "parse_path (''./out/'' @ long_name @ ''/'' @ ''clip.mp4'') =
      \<lparr>anchor = '''', names = [''out'', long_name, ''clip.mp4'']\<rparr>"
    by (rule parse_out_dir_file) (simp_all add: long_name_plain)
  then have parsed: "parse_path (''./out/'' @ long_name @ ''/clip.mp4'') =
      \<lparr>anchor = '''', names = [''out'', long_name, ''clip.mp4'']\<rparr>"
    by simp
  have place: "parent (target_path example_env (''./out/'' @ long_name @ ''/clip.mp4'')) =
     \<lparr>anchor = ''/'', names = [''repo'', ''example_videos'', ''out'', long_name]\<rparr>"
    by (simp only: target_path_def joinpath_def parsed Let_def)
      (simp add: parent_def example_env_def)
  have "example_mkdir (files fresh_world)
      \<lparr>anchor = ''/'', names = [''repo'', ''example_videos'', ''out'', long_name]\<rparr> =
     (Some OSError, [[''repo''] \<mapsto> Dir, [''repo'', ''example_videos''] \<mapsto> Dir,
                     [''repo'', ''example_videos'', ''out''] \<mapsto> Dir])"
    by (simp add: example_mkdir_def has_nul_def as_posix_def long_name_plain fresh_world_def
        step_def node_at_def)
  with place have "mkdir example_env (files fresh_world)
      (parent (target_path example_env (''./out/'' @ long_name @ ''/clip.mp4''))) =
     (Some OSError, [[''repo''] \<mapsto> Dir, [''repo'', ''example_videos''] \<mapsto> Dir,
                     [''repo'', ''example_videos'', ''out''] \<mapsto> Dir])"
    by (simp add: example_env_def)
  then have "write_video example_env (ColorClip (2, 2) (0, 0, 0) 1)
       (''./out/'' @ long_name @ ''/clip.mp4'') fresh_world =
     (Some OSError,
      fresh_world\<lparr>files := [[''repo''] \<mapsto> Dir, [''repo'', ''example_videos''] \<mapsto> Dir,
                [''repo'', ''example_videos'', ''out''] \<mapsto> Dir]\<rparr>)"
    by (rule write_video_fail)
  then have "write_video example_env (ColorClip (2, 2) (0, 0, 0) 1)
       (''./out/'' @ long_name @ ''/clip.mp4'') fresh_world =
     (Some OSError,
      \<lparr>files = [[''repo''] \<mapsto> Dir, [''repo'', ''example_videos''] \<mapsto> Dir,
                [''repo'', ''example_videos'', ''out''] \<mapsto> Dir],
       encoder_log = []\<rparr>)"
    by (simp add: fresh_world_def)
  with none missing place show ?thesis
    by simp
qed

end
